theory Spec2Isabelle
  imports Main "HOL-Library.Word" "HOL-Library.Signed_Division"
begin

section \<open>Durations and backoff strategies (httpretrier.go, lines 12-61)\<close>

text \<open>
  Go's \<open>time.Duration\<close> is a signed 64-bit count of nanoseconds: a \<open>64 word\<close> whose
  comparisons are the signed ones (\<open><s\<close>, \<open>\<le>s\<close>) and whose arithmetic wraps.
  The attempt index is a Go \<open>int\<close>; the retry loop never lets it overflow, so it is an
  \<open>int\<close> here, and the conversion \<open>uint(attempt)\<close> of the source is written out as
  \<open>attempt mod 2 ^ 64\<close>. A Go shift of a 64-bit value by 64 or more gives 0, as
  \<open>push_bit\<close> on \<open>64 word\<close> does.
\<close>

type_synonym duration = "64 word"

definition Millisecond :: duration where
  "Millisecond = 1000000"

definition Second :: duration where
  "Second = 1000000000"

text \<open>Go's integer division on \<open>int64\<close>: truncation towards zero.\<close>

definition duration_div :: "duration \<Rightarrow> duration \<Rightarrow> duration" where
  "duration_div a b = word_of_int (sint a sdiv sint b)"

text \<open>The closure returned by \<open>ExponentialBackoff(base, maxDelay)\<close>, lines 21-40.\<close>

definition ExponentialBackoff :: "duration \<Rightarrow> duration \<Rightarrow> int \<Rightarrow> duration" where
  "ExponentialBackoff base maxDelay attempt =
     (if attempt = 0 \<and> maxDelay <s base then base
      else
        let delay = base * push_bit (nat (attempt mod 2 ^ 64)) 1
        in if maxDelay <s delay \<or> delay \<le>s 0 then maxDelay else delay)"

text \<open>The closure returned by \<open>FixedDelay(delay)\<close>, lines 46-48.\<close>

definition FixedDelay :: "duration \<Rightarrow> int \<Rightarrow> duration" where
  "FixedDelay delay attempt = delay"

text \<open>
  The closure returned by \<open>JitterBackoff(base, maxDelay)\<close>, lines 55-60. The random
  source is outside the repository: \<open>Int63n\<close> stands for \<open>rand.Int63n\<close> on the
  arguments it accepts, and the panic of \<open>rand.Int63n\<close> on an argument \<open>n \<le> 0\<close> is
  the result \<open>None\<close>.
\<close>

definition JitterBackoff ::
  "(duration \<Rightarrow> duration) \<Rightarrow> duration \<Rightarrow> duration \<Rightarrow> int \<Rightarrow> duration option" where
  "JitterBackoff Int63n base maxDelay attempt =
     (let baseDelay = ExponentialBackoff base maxDelay attempt;
          n = duration_div baseDelay 2
      in if n \<le>s 0 then None
         else let jitter = Int63n n in Some (baseDelay + jitter))"

text \<open>
  The exponential delay in the spec's words (section 4.1), over mathematical integers:
  \<open>min(base * 2^attempt, cap)\<close> with the exact product, except that \<open>base\<close> is returned
  unmodified at attempt 0 when \<open>base > cap\<close>, and that a computed value that overflows to a
  non-positive duration is replaced by \<open>cap\<close>. The computed value is what a signed 64-bit
  multiplication makes of the product, \<open>wrap64\<close> of it; it has overflowed when it differs
  from the product.
\<close>

definition wrap64 :: "int \<Rightarrow> int" where
  "wrap64 k = signed_take_bit 63 k"

definition spec_ExponentialBackoff :: "int \<Rightarrow> int \<Rightarrow> int \<Rightarrow> int" where
  "spec_ExponentialBackoff base cap attempt =
     (if attempt = 0 \<and> cap < base then base
      else
        let p = base * 2 ^ nat attempt
        in if wrap64 p \<noteq> p \<and> wrap64 p \<le> 0 then cap else min p cap)"

text \<open>Two draws used to run \<open>JitterBackoff\<close> on concrete inputs: the least and the
  greatest value \<open>rand.Int63n(n)\<close> can return.\<close>

definition draw_least :: "duration \<Rightarrow> duration" where
  "draw_least n = 0"

definition draw_greatest :: "duration \<Rightarrow> duration" where
  "draw_greatest n = n - 1"

section \<open>The retry transport (httpretrier.go, lines 63-144)\<close>

text \<open>
  Errors of the collaborators are opaque values. A response carries its status code and
  what draining and closing its body will answer: \<open>copyErr\<close> is the error of
  \<open>io.Copy(io.Discard, resp.Body)\<close> and \<open>closeErr\<close> the error of
  \<open>resp.Body.Close()\<close> (\<open>None\<close> for \<open>nil\<close>).
\<close>

type_synonym err = string
type_synonym body = string

record response =
  StatusCode :: int
  copyErr :: "err option"
  closeErr :: "err option"

text \<open>
  A request has an optional body and an optional \<open>GetBody\<close> function; the copy that
  \<open>GetBody\<close> hands out (a body, not nil), or its error, may differ from call to call,
  so it is indexed by the attempt in which it is called.
\<close>

record request =
  Body :: "body option"
  GetBody :: "(int \<Rightarrow> err + body) option"

text \<open>
  The wrapped transport is a collaborator: what its \<open>RoundTrip\<close> answers on the
  physical send of attempt \<open>i\<close> is \<open>transport i\<close>, a pair of an optional response and
  an optional error as in Go. The request handed over is recorded in the trace; within
  one call of RoundTrip it is determined by the attempt, so an answer that depends on it
  is an answer that depends on the attempt. The body of a response is never nil, as
  \<open>net/http\<close> demands of a transport.
\<close>

type_synonym roundtripper = "int \<Rightarrow> response option \<times> err option"

text \<open>
  A retry strategy maps the attempt index to a delay. A Go function may panic instead of
  returning, as the closure of \<open>JitterBackoff\<close> does: that is the result \<open>None\<close>.
\<close>

type_synonym strategy = "int \<Rightarrow> duration option"

text \<open>What RoundTrip does to the outside world, in order.\<close>

datatype event =
    GetBodyCall int
  | Send int request
  | Copy int
  | Close int
  | Printf int duration
  | Sleep duration

text \<open>
  The errors RoundTrip returns, one constructor per \<open>fmt.Errorf\<close> of the source and the
  sentinel \<open>ErrAllRetriesFailed\<close>; and the two ways in which it does not return: the
  run-time panic of reading \<open>resp.StatusCode\<close> through a nil response, and a panic of
  the retry strategy.
\<close>

datatype rt_error =
    FailedGetBody err
  | FailedDiscard err
  | FailedClose err
  | LastError err
  | LastStatus int
  | ErrAllRetriesFailed
  | NilDereference
  | StrategyPanic

definition StatusInternalServerError :: int where
  "StatusInternalServerError = 500"

record retryTransport =
  Transport :: "roundtripper option"
  MaxRetries :: int
  RetryStrategy :: "strategy option"

text \<open>Lines 90-96: the body is replaced by a fresh copy when both fields are set.\<close>

definition replayBody :: "request \<Rightarrow> int \<Rightarrow> (err + request) \<times> event list" where
  "replayBody req attempt =
     (case Body req of
        None \<Rightarrow> (Inr req, [])
      | Some b \<Rightarrow>
          (case GetBody req of
             None \<Rightarrow> (Inr req, [])
           | Some getBody \<Rightarrow>
               (case getBody attempt of
                  Inl e \<Rightarrow> (Inl e, [GetBodyCall attempt])
                | Inr bodyClone \<Rightarrow>
                    (Inr (req\<lparr>Body := Some bodyClone\<rparr>), [GetBodyCall attempt]))))"

text \<open>Lines 101-103: the test \<open>err == nil && resp.StatusCode < 500\<close>.\<close>

datatype verdict = Success response | Retryable | NilResponse

definition sendVerdict :: "response option \<Rightarrow> err option \<Rightarrow> verdict" where
  "sendVerdict resp e =
     (case e of
        Some x \<Rightarrow> Retryable
      | None \<Rightarrow>
          (case resp of
             None \<Rightarrow> NilResponse
           | Some r \<Rightarrow>
               if StatusCode r < StatusInternalServerError then Success r else Retryable))"

text \<open>Lines 108-119: drain and close the body of a response that is not returned.\<close>

definition discardBody :: "response option \<Rightarrow> int \<Rightarrow> rt_error option \<times> event list" where
  "discardBody resp attempt =
     (case resp of
        None \<Rightarrow> (None, [])
      | Some r \<Rightarrow>
          (case copyErr r of
             Some ce \<Rightarrow> (Some (FailedDiscard ce), [Copy attempt, Close attempt])
           | None \<Rightarrow>
               (case closeErr r of
                  Some ce \<Rightarrow> (Some (FailedClose ce), [Copy attempt, Close attempt])
                | None \<Rightarrow> (None, [Copy attempt, Close attempt]))))"

text \<open>Lines 128-137: the error returned once the budget is used up.\<close>

definition exhausted :: "response option \<Rightarrow> err option \<Rightarrow> rt_error" where
  "exhausted resp e =
     (case e of
        Some x \<Rightarrow> LastError x
      | None \<Rightarrow>
          (case resp of
             Some r \<Rightarrow> LastStatus (StatusCode r)
           | None \<Rightarrow> ErrAllRetriesFailed))"

text \<open>
  The loop of lines 87-143, from a given attempt index on. The result is what RoundTrip
  returns (\<open>Inr\<close> the response, \<open>Inl\<close> the error) and the trace of what it did.
\<close>

function attempts ::
  "roundtripper \<Rightarrow> int \<Rightarrow> strategy \<Rightarrow> request \<Rightarrow> int
     \<Rightarrow> (rt_error + response) \<times> event list" where
  "attempts transport maxRetries retryStrategy req attempt =
     (if attempt \<le> maxRetries then
        (case replayBody req attempt of
           (Inl e, ev) \<Rightarrow> (Inl (FailedGetBody e), ev)
         | (Inr req1, ev) \<Rightarrow>
             (case transport attempt of
                (resp, e) \<Rightarrow>
                  (case sendVerdict resp e of
                     NilResponse \<Rightarrow> (Inl NilDereference, ev @ [Send attempt req1])
                   | Success r \<Rightarrow> (Inr r, ev @ [Send attempt req1])
                   | Retryable \<Rightarrow>
                       (case discardBody resp attempt of
                          (Some de, ev2) \<Rightarrow> (Inl de, ev @ [Send attempt req1] @ ev2)
                        | (None, ev2) \<Rightarrow>
                            if attempt < maxRetries then
                              (case retryStrategy attempt of
                                 None \<Rightarrow> (Inl StrategyPanic, ev @ [Send attempt req1] @ ev2)
                               | Some delay \<Rightarrow>
                                   (case attempts transport maxRetries retryStrategy req1
                                           (attempt + 1) of
                                      (res, evs) \<Rightarrow>
                                        (res, ev @ [Send attempt req1] @ ev2
                                           @ [Printf (attempt + 1) delay, Sleep delay] @ evs)))
                            else (Inl (exhausted resp e), ev @ [Send attempt req1] @ ev2)))))
      else (Inl ErrAllRetriesFailed, []))"
  by pat_completeness auto
termination
  by (relation "measure (\<lambda>(transport, maxRetries, retryStrategy, req, attempt).
        nat (maxRetries - attempt))") auto

declare attempts.simps [simp del]

text \<open>
  Lines 76-85: a nil transport is replaced by \<open>http.DefaultTransport\<close>, which lives
  outside the repository and is a parameter here, and a nil strategy by the exponential
  backoff from 500 ms up to 10 s.
\<close>

definition wrappedTransport :: "roundtripper \<Rightarrow> retryTransport \<Rightarrow> roundtripper" where
  "wrappedTransport DefaultTransport r =
     (case Transport r of None \<Rightarrow> DefaultTransport | Some t \<Rightarrow> t)"

definition chosenStrategy :: "retryTransport \<Rightarrow> strategy" where
  "chosenStrategy r =
     (case RetryStrategy r of
        None \<Rightarrow> (\<lambda>attempt. Some (ExponentialBackoff (500 * Millisecond) (10 * Second) attempt))
      | Some s \<Rightarrow> s)"

text \<open>\<open>RoundTrip\<close>, lines 71-144: the loop from attempt 0.\<close>

definition RoundTrip ::
  "roundtripper \<Rightarrow> retryTransport \<Rightarrow> request \<Rightarrow> (rt_error + response) \<times> event list" where
  "RoundTrip DefaultTransport r req =
     attempts (wrappedTransport DefaultTransport r) (MaxRetries r) (chosenStrategy r) req 0"

text \<open>Counting the physical sends and listing the delay waits of a trace.\<close>

fun is_Send :: "event \<Rightarrow> bool" where
  "is_Send (Send i rq) = True"
| "is_Send ev = False"

definition sends :: "event list \<Rightarrow> nat" where
  "sends tr = length (filter is_Send tr)"

fun slept :: "event list \<Rightarrow> duration list" where
  "slept [] = []"
| "slept (Sleep d # tr) = d # slept tr"
| "slept (ev # tr) = slept tr"

text \<open>The attempt in which a call on the request, the transport or a response body is made.\<close>

fun attemptOf :: "event \<Rightarrow> int option" where
  "attemptOf (GetBodyCall i) = Some i"
| "attemptOf (Send i rq) = Some i"
| "attemptOf (Copy i) = Some i"
| "attemptOf (Close i) = Some i"
| "attemptOf (Printf i d) = None"
| "attemptOf (Sleep d) = None"

section \<open>Sample collaborators\<close>

text \<open>Requests, responses, transports and strategies on which the theorems are run.\<close>

definition plainRequest :: request where
  "plainRequest = \<lparr>Body = None, GetBody = None\<rparr>"

definition payloadCopies :: "int \<Rightarrow> err + body" where
  "payloadCopies i = Inr ''payload''"

definition replayableRequest :: request where
  "replayableRequest = \<lparr>Body = Some ''payload'', GetBody = Some payloadCopies\<rparr>"

definition brokenCopies :: "int \<Rightarrow> err + body" where
  "brokenCopies i = Inl ''rewind failed''"

definition brokenRequest :: request where
  "brokenRequest = \<lparr>Body = Some ''payload'', GetBody = Some brokenCopies\<rparr>"

definition okResponse :: response where
  "okResponse = \<lparr>StatusCode = 200, copyErr = None, closeErr = None\<rparr>"

definition response499 :: response where
  "response499 = \<lparr>StatusCode = 499, copyErr = None, closeErr = None\<rparr>"

definition serverError :: response where
  "serverError = \<lparr>StatusCode = 500, copyErr = None, closeErr = None\<rparr>"

definition leakyResponse :: response where
  "leakyResponse = \<lparr>StatusCode = 500, copyErr = None, closeErr = Some ''close failed''\<rparr>"

definition stuckResponse :: response where
  "stuckResponse =
     \<lparr>StatusCode = 500, copyErr = Some ''read failed'', closeErr = Some ''close failed''\<rparr>"

definition always500 :: roundtripper where
  "always500 i = (Some serverError, None)"

definition always499 :: roundtripper where
  "always499 i = (Some response499, None)"

definition alwaysTimeout :: roundtripper where
  "alwaysTimeout i = (None, Some ''timeout'')"

definition thriceFailing :: roundtripper where
  "thriceFailing i = (if i < 3 then (Some serverError, None) else (Some okResponse, None))"

definition closeFailing :: roundtripper where
  "closeFailing i = (Some leakyResponse, None)"

definition drainFailing :: roundtripper where
  "drainFailing i = (Some stuckResponse, None)"

definition fixedMillisecond :: strategy where
  "fixedMillisecond attempt = Some (FixedDelay Millisecond attempt)"

definition panicking :: strategy where
  "panicking attempt = None"

definition retrier :: "roundtripper \<Rightarrow> int \<Rightarrow> strategy \<Rightarrow> retryTransport" where
  "retrier t n s = \<lparr>Transport = Some t, MaxRetries = n, RetryStrategy = Some s\<rparr>"

definition defaultRetrier :: "int \<Rightarrow> retryTransport" where
  "defaultRetrier n = \<lparr>Transport = None, MaxRetries = n, RetryStrategy = None\<rparr>"

section \<open>Facts about signed 64-bit arithmetic\<close>

lemma sint_mult_pow2:
  "sint (base * 2 ^ n :: 64 word) = signed_take_bit 63 (sint base * 2 ^ n)"
proof -
  have "base * 2 ^ n = (word_of_int (sint base * 2 ^ n) :: 64 word)"
    by simp
  then show ?thesis by (simp only: sint_sbintrunc') simp
qed

lemma sint_twice: "sint (2 * w :: 64 word) = signed_take_bit 63 (2 * sint w)"
proof -
  have "2 * w = word_of_int (2 * sint w)" by simp
  then show ?thesis by (simp only: sint_sbintrunc') simp
qed

lemma wrap_double:
  assumes "0 < k" "k < 2 ^ 63"
  shows "signed_take_bit 63 (2 * k :: int) \<le> 0 \<or> signed_take_bit 63 (2 * k) = 2 * k"
proof (cases "2 * k < 2 ^ 63")
  case True
  with assms have "signed_take_bit 63 (2 * k) = 2 * k"
    by (intro signed_take_bit_int_eq_self) simp_all
  then show ?thesis ..
next
  case False
  then have "signed_take_bit 63 (2 * k) \<le> 2 * k - 2 ^ Suc 63"
    by (intro signed_take_bit_int_less_eq) simp
  with assms show ?thesis by simp
qed

lemma sint_double:
  fixes w :: "64 word"
  assumes "0 < sint w"
  shows "sint (2 * w) \<le> 0 \<or> sint (2 * w) = 2 * sint w"
proof -
  have "sint w < 2 ^ 63" using sint_lt [of w] by simp
  with wrap_double [OF assms] show ?thesis by (simp add: sint_twice)
qed

lemma sint_duration_div2: "sint (duration_div e 2) = sint e sdiv 2"
proof -
  have b: "- (2 ^ 63) \<le> sint e" "sint e < 2 ^ 63"
    using sint_ge [of e] sint_lt [of e] by simp_all
  have "\<bar>sint e\<bar> div 2 \<le> \<bar>sint e\<bar>" by simp
  then have "- (2 ^ 63) \<le> sint e sdiv 2 \<and> sint e sdiv 2 < 2 ^ 63"
    using b by (auto simp: signed_divide_int_def sgn_if)
  then have "signed_take_bit 63 (sint e sdiv 2) = sint e sdiv 2"
    by (intro signed_take_bit_int_eq_self) simp_all
  then show ?thesis
    by (simp add: duration_div_def sint_sbintrunc')
qed

lemma sdiv2_le_0_iff: "(k::int) sdiv 2 \<le> 0 \<longleftrightarrow> k < 2"
  by (auto simp: signed_divide_int_def sgn_if)

lemma sdiv2_nonneg: "0 \<le> (k::int) \<Longrightarrow> k sdiv 2 = k div 2"
  by (auto simp: signed_divide_int_def sgn_if)

section \<open>The exponential delay\<close>

lemma ExponentialBackoff_sint:
  "sint (ExponentialBackoff base cap attempt) =
     (if attempt = 0 \<and> sint cap < sint base then sint base
      else let d = signed_take_bit 63 (sint base * 2 ^ nat (attempt mod 2 ^ 64))
           in if d \<le> 0 then sint cap else min d (sint cap))"
  by (simp add: ExponentialBackoff_def Let_def word_sless_alt word_sle_eq push_bit_eq_mult
      sint_mult_pow2 min_def)

lemma ExponentialBackoff_le_cap:
  "attempt \<noteq> 0 \<or> base \<le>s cap \<Longrightarrow> ExponentialBackoff base cap attempt \<le>s cap"
  by (auto simp: ExponentialBackoff_def Let_def word_sless_alt word_sle_eq)

lemma ExponentialBackoff_nonneg:
  "0 \<le>s cap \<Longrightarrow> 0 \<le>s ExponentialBackoff base cap attempt"
  by (auto simp: ExponentialBackoff_def Let_def word_sless_alt word_sle_eq)

lemma ExponentialBackoff_le_max:
  "sint (ExponentialBackoff base cap attempt) \<le> max (sint base) (sint cap)"
  by (auto simp: ExponentialBackoff_def Let_def word_sless_alt word_sle_eq)

lemma ExponentialBackoff_below_cap:
  "0 \<le> a \<Longrightarrow> a < 2 ^ 64 \<Longrightarrow> base \<le>s cap \<Longrightarrow> ExponentialBackoff base cap a =
     (let delay = base * 2 ^ nat a in if cap <s delay \<or> delay \<le>s 0 then cap else delay)"
  by (auto simp: ExponentialBackoff_def Let_def push_bit_eq_mult)

lemma ExponentialBackoff_step:
  assumes "0 \<le> a" "a + 1 < 2 ^ 64" "base \<le>s cap" "ExponentialBackoff base cap a \<noteq> cap"
  shows "ExponentialBackoff base cap a \<le>s ExponentialBackoff base cap (a + 1)"
proof -
  define w where "w = base * 2 ^ nat a"
  have w': "base * 2 ^ nat (a + 1) = 2 * w"
    using assms(1) by (simp add: w_def nat_add_distrib)
  have e0: "ExponentialBackoff base cap a = (if cap <s w \<or> w \<le>s 0 then cap else w)"
    using assms by (simp add: ExponentialBackoff_below_cap w_def Let_def)
  have e1: "ExponentialBackoff base cap (a + 1) =
      (if cap <s 2 * w \<or> 2 * w \<le>s 0 then cap else 2 * w)"
    using assms ExponentialBackoff_below_cap [of "a + 1" base cap] by (simp add: w' Let_def)
  from e0 assms(4) have w: "0 < sint w" "sint w \<le> sint cap" "ExponentialBackoff base cap a = w"
    by (auto simp: word_sless_alt word_sle_eq split: if_splits)
  from sint_double [OF w(1)] w show ?thesis
    by (auto simp: e1 word_sless_alt word_sle_eq)
qed

lemma ExponentialBackoff_ge_2:
  assumes "2 \<le> sint base" "2 \<le> sint cap"
  shows "2 \<le> sint (ExponentialBackoff base cap attempt)"
proof -
  define n where "n = nat (attempt mod 2 ^ 64)"
  define w where "w = base * 2 ^ n"
  have pos: "0 < sint w \<Longrightarrow> 2 \<le> sint w"
  proof (cases n)
    case 0
    then show ?thesis using assms by (simp add: w_def)
  next
    case (Suc m)
    then have "w = 2 * (base * 2 ^ m)" by (simp add: w_def)
    then have "sint w = signed_take_bit 63 (2 * sint (base * 2 ^ m))"
      by (simp only: sint_twice)
    then have "even (sint w)"
      by (simp only: even_signed_take_bit_iff) simp
    moreover assume "0 < sint w"
    ultimately show ?thesis by presburger
  qed
  have "ExponentialBackoff base cap attempt = base \<or> ExponentialBackoff base cap attempt = cap
      \<or> (ExponentialBackoff base cap attempt = w \<and> 0 < sint w)"
    by (auto simp: ExponentialBackoff_def Let_def push_bit_eq_mult w_def n_def word_sle_eq)
  with pos assms show ?thesis by auto
qed

lemma ExponentialBackoff_monotone_until_cap:
  assumes "base \<le>s cap" "0 \<le> a" "a \<le> b" "b < 2 ^ 63"
    and "\<forall>k. a \<le> k \<and> k < b \<longrightarrow> ExponentialBackoff base cap k \<noteq> cap"
  shows "ExponentialBackoff base cap a \<le>s ExponentialBackoff base cap b"
  using assms(3,4,5)
proof (induction b rule: int_ge_induct)
  case base
  then show ?case by simp
next
  case (step i)
  have "ExponentialBackoff base cap a \<le>s ExponentialBackoff base cap i"
    using step by simp
  moreover have "ExponentialBackoff base cap i \<le>s ExponentialBackoff base cap (i + 1)"
    using step assms(1,2) by (intro ExponentialBackoff_step) simp_all
  ultimately show ?case by (simp add: word_sle_eq)
qed

text \<open>
  Claim C4, as amended. For an attempt index from 0 on, \<open>ExponentialBackoff(base, cap)\<close>
  returns \<open>base\<close> at attempt 0 when \<open>base > cap\<close>; otherwise it returns \<open>cap\<close> when the
  product \<open>base * 2^attempt\<close> is not positive, overflowed or not, and what the spec says
  when it is positive: \<open>cap\<close> for a product that overflows to a non-positive value and
  \<open>min(base * 2^attempt, cap)\<close>, of the exact product, otherwise. This holds on every input
  whose 64-bit product does not wrap around to a positive value below \<open>cap\<close>; what is
  returned there is left open. Every attempt from 1 on returns a value that does not
  exceed \<open>cap\<close>.
\<close>

theorem C4_ExponentialBackoff_refines_spec:
  "0 \<le> attempt \<Longrightarrow> attempt < 2 ^ 63 \<Longrightarrow>
     (wrap64 (sint base * 2 ^ nat attempt) \<le> 0
        \<or> wrap64 (sint base * 2 ^ nat attempt) = sint base * 2 ^ nat attempt
        \<or> sint cap \<le> wrap64 (sint base * 2 ^ nat attempt)
      \<longrightarrow> sint (ExponentialBackoff base cap attempt)
            = (if \<not> (attempt = 0 \<and> sint cap < sint base) \<and> sint base * 2 ^ nat attempt \<le> 0
               then sint cap
               else spec_ExponentialBackoff (sint base) (sint cap) attempt))
     \<and> (1 \<le> attempt \<longrightarrow> ExponentialBackoff base cap attempt \<le>s cap)"
proof -
  assume a: "0 \<le> attempt" "attempt < 2 ^ 63"
  define p where "p = sint base * 2 ^ nat attempt"
  have m: "attempt mod 18446744073709551616 = attempt" using a by simp
  have cap: "sint cap < 2 ^ 63" using sint_lt [of cap] by simp
  have over: "2 ^ 63 \<le> p" if "0 < p" "signed_take_bit 63 p \<noteq> p"
    using that signed_take_bit_int_eq_self [of 63 p] by force
  have code: "sint (ExponentialBackoff base cap attempt) =
     (if attempt = 0 \<and> sint cap < sint base then sint base
      else if signed_take_bit 63 p \<le> 0 then sint cap
      else min (signed_take_bit 63 p) (sint cap))"
    by (simp add: ExponentialBackoff_sint m p_def Let_def)
  have "sint (ExponentialBackoff base cap attempt)
      = (if \<not> (attempt = 0 \<and> sint cap < sint base) \<and> p \<le> 0 then sint cap
         else spec_ExponentialBackoff (sint base) (sint cap) attempt)"
    if k: "signed_take_bit 63 p \<le> 0 \<or> signed_take_bit 63 p = p
        \<or> sint cap \<le> signed_take_bit 63 p"
  proof (cases "attempt = 0 \<and> sint cap < sint base")
    case True
    with code show ?thesis by (simp add: spec_ExponentialBackoff_def)
  next
    case False
    show ?thesis
    proof (cases "p \<le> 0")
      case True
      with k False code show ?thesis by (auto simp: min_def)
    next
      case pos: False
      show ?thesis
      proof (cases "signed_take_bit 63 p = p")
        case True
        with pos False code show ?thesis
          by (auto simp: spec_ExponentialBackoff_def wrap64_def p_def [symmetric])
      next
        case wrapped: False
        with pos over have "2 ^ 63 \<le> p" by simp
        with cap have "min p (sint cap) = sint cap" by simp
        with k wrapped pos False code show ?thesis
          by (auto simp: spec_ExponentialBackoff_def wrap64_def p_def [symmetric] min_def)
      qed
    qed
  qed
  moreover have "1 \<le> attempt \<longrightarrow> ExponentialBackoff base cap attempt \<le>s cap"
    by (auto intro: ExponentialBackoff_le_cap)
  ultimately show ?thesis by (simp add: p_def wrap64_def)
qed

theorem C4_witness:
  "(0::int) \<le> 1 \<and> (1::int) < 2 ^ 63
   \<and> wrap64 (sint (5::duration) * 2 ^ nat 1) = sint (5::duration) * 2 ^ nat 1
   \<and> sint (ExponentialBackoff 5 3 1) = spec_ExponentialBackoff (sint (5::duration)) (sint (3::duration)) 1
   \<and> sint (ExponentialBackoff 5 3 1) = 3
   \<and> ExponentialBackoff 5 3 1 \<le>s 3
   \<and> wrap64 (sint (0::duration) * 2 ^ nat 1) \<le> 0
   \<and> sint (ExponentialBackoff 0 10 1) = sint (10::duration)"
  using C4_ExponentialBackoff_refines_spec [of 1 5 3]
    C4_ExponentialBackoff_refines_spec [of 1 0 10]
  by (simp add: spec_ExponentialBackoff_def wrap64_def)

text \<open>
  The claim as stated fails for a base of 0: nothing overflows, the product is 0, and the
  delay is the cap of 10 ns, not \<open>min(0, 10)\<close>.
\<close>

theorem C4_counterexample:
  "wrap64 (sint (0::duration) * 2 ^ nat 0) = sint (0::duration) * 2 ^ nat 0
   \<and> spec_ExponentialBackoff (sint (0::duration)) (sint (10::duration)) 0 = 0
   \<and> sint (ExponentialBackoff 0 10 0) = 10"
  by (simp add: ExponentialBackoff_def spec_ExponentialBackoff_def wrap64_def
      word_sless_alt word_sle_eq)

text \<open>
  Claim C5 does not hold of the code. With a base of \<open>2^32 + 1\<close> ns, below the cap of
  10 s, attempt 2 waits the cap; at attempt 32 the 64-bit product wraps around to
  \<open>2^32\<close> ns, which is positive and below the cap, and is returned as it is: the delay
  has decreased, and is below the base. The guard of line 33 catches an overflow only
  when the wrapped product is not positive.
\<close>

theorem C5_delay_decreases_after_cap:
  "(4294967297 :: duration) \<le>s 10 * Second
   \<and> ExponentialBackoff 4294967297 (10 * Second) 2 = 10 * Second
   \<and> ExponentialBackoff 4294967297 (10 * Second) 32 = 4294967296
   \<and> ExponentialBackoff 4294967297 (10 * Second) 32
        <s ExponentialBackoff 4294967297 (10 * Second) 2
   \<and> ExponentialBackoff 4294967297 (10 * Second) 32 <s 4294967297"
  by (simp add: ExponentialBackoff_def Second_def word_sless_alt word_sle_eq)

section \<open>The jittered delay and the sign of the delays\<close>

lemma JitterBackoff_None_iff:
  "JitterBackoff Int63n base cap attempt = None
     \<longleftrightarrow> sint (ExponentialBackoff base cap attempt) < 2"
  by (simp add: JitterBackoff_def Let_def word_sle_eq sint_duration_div2 sdiv2_le_0_iff)

lemma JitterBackoff_sum:
  assumes e: "e = ExponentialBackoff base cap attempt"
    and j: "j = Int63n (duration_div e 2)"
    and big: "2 \<le> sint e"
    and noov: "sint e + sint e div 2 \<le> 2 ^ 63"
    and rnd: "0 \<le>s j" "j <s duration_div e 2"
  shows "JitterBackoff Int63n base cap attempt = Some (e + j)"
    and "sint (e + j) = sint e + sint j"
    and "0 \<le> sint j" and "sint j < sint e div 2"
proof -
  have n: "sint (duration_div e 2) = sint e div 2"
    using big by (simp add: sint_duration_div2 sdiv2_nonneg)
  show j0: "0 \<le> sint j" and j1: "sint j < sint e div 2"
    using rnd n by (simp_all add: word_sle_eq word_sless_alt)
  have "e + j = word_of_int (sint e + sint j)" by simp
  then have "sint (e + j) = signed_take_bit 63 (sint e + sint j)"
    by (simp only: sint_sbintrunc') simp
  also have "\<dots> = sint e + sint j"
    using big j0 j1 noov by (intro signed_take_bit_int_eq_self) simp_all
  finally show "sint (e + j) = sint e + sint j" .
  show "JitterBackoff Int63n base cap attempt = Some (e + j)"
    using big e j by (simp add: JitterBackoff_def Let_def word_sle_eq sint_duration_div2
        sdiv2_le_0_iff)
qed

text \<open>
  Claim C6, as amended. When the exponential delay \<open>e\<close> of the attempt is at least 2 ns
  and \<open>e + e / 2\<close> stays within the signed 64-bit range, and the draw of \<open>rand.Int63n\<close>
  lies in \<open>[0, e / 2)\<close>, \<open>JitterBackoff\<close> returns \<open>e\<close> plus the draw, a value in
  \<open>[e, 1.5 * e)\<close>. When \<open>e\<close> is below 2 ns, \<open>rand.Int63n\<close> panics and no delay is
  returned.
\<close>

theorem C6_JitterBackoff_range:
  "(2 \<le> sint (ExponentialBackoff base cap attempt)
      \<and> sint (ExponentialBackoff base cap attempt)
           + sint (ExponentialBackoff base cap attempt) div 2 \<le> 2 ^ 63
      \<and> 0 \<le>s Int63n (duration_div (ExponentialBackoff base cap attempt) 2)
      \<and> Int63n (duration_div (ExponentialBackoff base cap attempt) 2)
           <s duration_div (ExponentialBackoff base cap attempt) 2
    \<longrightarrow> (\<exists>d. JitterBackoff Int63n base cap attempt = Some d
          \<and> d = ExponentialBackoff base cap attempt
                + Int63n (duration_div (ExponentialBackoff base cap attempt) 2)
          \<and> sint (ExponentialBackoff base cap attempt) \<le> sint d
          \<and> 2 * sint d < 3 * sint (ExponentialBackoff base cap attempt)))
   \<and> (sint (ExponentialBackoff base cap attempt) < 2
        \<longrightarrow> JitterBackoff Int63n base cap attempt = None)"
proof (intro conjI impI)
  define e where "e = ExponentialBackoff base cap attempt"
  define j where "j = Int63n (duration_div e 2)"
  assume "2 \<le> sint (ExponentialBackoff base cap attempt)
      \<and> sint (ExponentialBackoff base cap attempt)
           + sint (ExponentialBackoff base cap attempt) div 2 \<le> 2 ^ 63
      \<and> 0 \<le>s Int63n (duration_div (ExponentialBackoff base cap attempt) 2)
      \<and> Int63n (duration_div (ExponentialBackoff base cap attempt) 2)
           <s duration_div (ExponentialBackoff base cap attempt) 2"
  then have h: "2 \<le> sint e" "sint e + sint e div 2 \<le> 2 ^ 63" "0 \<le>s j"
    "j <s duration_div e 2"
    by (simp_all add: e_def j_def)
  note s = JitterBackoff_sum [where Int63n = Int63n, OF e_def j_def h]
  have "JitterBackoff Int63n base cap attempt = Some (e + j)
      \<and> sint e \<le> sint (e + j) \<and> 2 * sint (e + j) < 3 * sint e"
    using s by simp
  then show "\<exists>d. JitterBackoff Int63n base cap attempt = Some d
      \<and> d = ExponentialBackoff base cap attempt
            + Int63n (duration_div (ExponentialBackoff base cap attempt) 2)
      \<and> sint (ExponentialBackoff base cap attempt) \<le> sint d
      \<and> 2 * sint d < 3 * sint (ExponentialBackoff base cap attempt)"
    by (simp add: e_def j_def)
next
  assume "sint (ExponentialBackoff base cap attempt) < 2"
  then show "JitterBackoff Int63n base cap attempt = None"
    by (simp add: JitterBackoff_None_iff)
qed

theorem C6_witness:
  "2 \<le> sint (ExponentialBackoff 10 10 0)
   \<and> sint (ExponentialBackoff 10 10 0) + sint (ExponentialBackoff 10 10 0) div 2 \<le> 2 ^ 63
   \<and> 0 \<le>s draw_greatest (duration_div (ExponentialBackoff 10 10 0) 2)
   \<and> draw_greatest (duration_div (ExponentialBackoff 10 10 0) 2)
        <s duration_div (ExponentialBackoff 10 10 0) 2
   \<and> JitterBackoff draw_greatest 10 10 0 = Some 14
   \<and> sint (ExponentialBackoff 1 1 0) < 2
   \<and> JitterBackoff draw_greatest 1 1 0 = None"
proof -
  have e: "ExponentialBackoff 10 10 0 = 10" "ExponentialBackoff 1 1 0 = 1"
    by (simp_all add: ExponentialBackoff_def word_sless_alt word_sle_eq)
  have n: "duration_div 10 2 = 5"
    by (simp add: duration_div_def signed_divide_int_def)
  have h: "2 \<le> sint (ExponentialBackoff 10 10 0)
    \<and> sint (ExponentialBackoff 10 10 0) + sint (ExponentialBackoff 10 10 0) div 2 \<le> 2 ^ 63
    \<and> 0 \<le>s draw_greatest (duration_div (ExponentialBackoff 10 10 0) 2)
    \<and> draw_greatest (duration_div (ExponentialBackoff 10 10 0) 2)
        <s duration_div (ExponentialBackoff 10 10 0) 2"
    by (simp add: e n draw_greatest_def word_sle_eq word_sless_alt)
  have l: "sint (ExponentialBackoff 1 1 0) < 2"
    by (simp add: e)
  from C6_JitterBackoff_range [of 10 10 0 draw_greatest] h
  have "JitterBackoff draw_greatest 10 10 0 = Some 14"
    by (simp add: e n draw_greatest_def)
  moreover from C6_JitterBackoff_range [of 1 1 0 draw_greatest] l
  have "JitterBackoff draw_greatest 1 1 0 = None"
    by simp
  ultimately show ?thesis using h l by simp
qed

text \<open>
  The claim as stated fails at both ends. With \<open>base = cap = 0\<close> the exponential delay is
  0, \<open>rand.Int63n(0)\<close> panics and no delay is returned. With \<open>base = cap = 2^63 - 1\<close>
  the greatest draw lies in \<open>[0, e / 2)\<close>, the sum wraps around and the delay returned is
  below the exponential delay.
\<close>

theorem C6_counterexample:
  "JitterBackoff draw_least 0 0 0 = None
   \<and> ExponentialBackoff 9223372036854775807 9223372036854775807 0 = 9223372036854775807
   \<and> 0 \<le>s draw_greatest (duration_div 9223372036854775807 2)
   \<and> draw_greatest (duration_div 9223372036854775807 2) <s duration_div 9223372036854775807 2
   \<and> JitterBackoff draw_greatest 9223372036854775807 9223372036854775807 0
       = Some (- 4611686018427387907)
   \<and> (- 4611686018427387907 :: duration) <s 9223372036854775807"
  by (simp add: JitterBackoff_def ExponentialBackoff_def duration_div_def draw_least_def
      draw_greatest_def signed_divide_int_def word_sless_alt word_sle_eq)

text \<open>
  Claim C7, as amended. \<open>FixedDelay(d)\<close> returns a non-negative duration when \<open>d\<close> is
  not negative; \<open>ExponentialBackoff(base, cap)\<close> does when \<open>cap\<close> is not negative; and
  \<open>JitterBackoff(base, cap)\<close> does when the exponential delay \<open>e\<close> of the attempt is at
  least 2 ns, \<open>e + e / 2\<close> stays within the signed 64-bit range and the draw of
  \<open>rand.Int63n\<close> lies in \<open>[0, e / 2)\<close>.
\<close>

theorem C7_strategies_nonnegative:
  "(0 \<le>s delay \<longrightarrow> 0 \<le>s FixedDelay delay attempt)
   \<and> (0 \<le>s cap \<longrightarrow> 0 \<le>s ExponentialBackoff base cap attempt)
   \<and> (2 \<le> sint (ExponentialBackoff base cap attempt)
        \<and> sint (ExponentialBackoff base cap attempt)
             + sint (ExponentialBackoff base cap attempt) div 2 \<le> 2 ^ 63
        \<and> 0 \<le>s Int63n (duration_div (ExponentialBackoff base cap attempt) 2)
        \<and> Int63n (duration_div (ExponentialBackoff base cap attempt) 2)
             <s duration_div (ExponentialBackoff base cap attempt) 2
      \<longrightarrow> (\<exists>d. JitterBackoff Int63n base cap attempt = Some d \<and> 0 \<le>s d))"
proof (intro conjI impI)
  assume "0 \<le>s delay"
  then show "0 \<le>s FixedDelay delay attempt" by (simp add: FixedDelay_def)
next
  assume "0 \<le>s cap"
  then show "0 \<le>s ExponentialBackoff base cap attempt" by (rule ExponentialBackoff_nonneg)
next
  define e where "e = ExponentialBackoff base cap attempt"
  define j where "j = Int63n (duration_div e 2)"
  assume "2 \<le> sint (ExponentialBackoff base cap attempt)
        \<and> sint (ExponentialBackoff base cap attempt)
             + sint (ExponentialBackoff base cap attempt) div 2 \<le> 2 ^ 63
        \<and> 0 \<le>s Int63n (duration_div (ExponentialBackoff base cap attempt) 2)
        \<and> Int63n (duration_div (ExponentialBackoff base cap attempt) 2)
             <s duration_div (ExponentialBackoff base cap attempt) 2"
  then have h: "2 \<le> sint e" "sint e + sint e div 2 \<le> 2 ^ 63" "0 \<le>s j"
    "j <s duration_div e 2"
    by (simp_all add: e_def j_def)
  note s = JitterBackoff_sum [where Int63n = Int63n, OF e_def j_def h]
  have "0 \<le>s e + j"
    using s h(1) by (simp add: word_sle_eq)
  with s(1) show "\<exists>d. JitterBackoff Int63n base cap attempt = Some d \<and> 0 \<le>s d"
    by simp
qed

theorem C7_witness:
  "(0::duration) \<le>s 7 \<and> 0 \<le>s FixedDelay 7 2
   \<and> (0::duration) \<le>s 10 \<and> 0 \<le>s ExponentialBackoff 3 10 2
   \<and> 2 \<le> sint (ExponentialBackoff 3 10 2)
   \<and> sint (ExponentialBackoff 3 10 2) + sint (ExponentialBackoff 3 10 2) div 2 \<le> 2 ^ 63
   \<and> 0 \<le>s draw_least (duration_div (ExponentialBackoff 3 10 2) 2)
   \<and> draw_least (duration_div (ExponentialBackoff 3 10 2) 2)
        <s duration_div (ExponentialBackoff 3 10 2) 2
   \<and> JitterBackoff draw_least 3 10 2 = Some 10"
proof -
  have e: "ExponentialBackoff 3 10 2 = 10"
    by (simp add: ExponentialBackoff_def word_sless_alt word_sle_eq)
  have n: "duration_div 10 2 = 5"
    by (simp add: duration_div_def signed_divide_int_def)
  have h: "(0::duration) \<le>s 7" "(0::duration) \<le>s 10"
    "2 \<le> sint (ExponentialBackoff 3 10 2)
      \<and> sint (ExponentialBackoff 3 10 2) + sint (ExponentialBackoff 3 10 2) div 2 \<le> 2 ^ 63
      \<and> 0 \<le>s draw_least (duration_div (ExponentialBackoff 3 10 2) 2)
      \<and> draw_least (duration_div (ExponentialBackoff 3 10 2) 2)
          <s duration_div (ExponentialBackoff 3 10 2) 2"
    by (simp_all add: e n draw_least_def word_sle_eq word_sless_alt)
  have j: "JitterBackoff draw_least 3 10 2 = Some 10"
    by (simp add: JitterBackoff_def e n draw_least_def word_sle_eq)
  from C7_strategies_nonnegative [of 7 2 10 3 draw_least] h j
  show ?thesis by simp
qed

text \<open>
  The claim as stated fails without a condition on the arguments: a fixed delay of -1 ns
  is returned as it is; a cap of -5 ns is returned by the exponential delay; with
  \<open>base = cap = 0\<close> the jittered delay panics in \<open>rand.Int63n(0)\<close>; and with
  \<open>base = cap = 2^63 - 1\<close> and the greatest draw the sum wraps around to a negative
  duration.
\<close>

theorem C7_counterexample:
  "FixedDelay (- 1) 0 <s 0 \<and> ExponentialBackoff 1 (- 5) 1 <s 0
   \<and> JitterBackoff draw_least 0 0 0 = None
   \<and> 0 \<le>s draw_greatest (duration_div 9223372036854775807 2)
   \<and> draw_greatest (duration_div 9223372036854775807 2) <s duration_div 9223372036854775807 2
   \<and> JitterBackoff draw_greatest 9223372036854775807 9223372036854775807 0
       = Some (- 4611686018427387907)
   \<and> (- 4611686018427387907 :: duration) <s 0"
  by (simp add: FixedDelay_def ExponentialBackoff_def JitterBackoff_def duration_div_def
      draw_least_def draw_greatest_def signed_divide_int_def word_sless_alt word_sle_eq)

end
